theory Spec2Isabelle
  imports Main "HOL-Library.AList" "HOL-Library.While_Combinator"
begin

section \<open>The view tree\<close>

text \<open>
  A view node is a text node or an element with a name, attributes and an ordered
  list of children. Reading \<open>.name\<close> on a text node gives \<open>undefined\<close>, which is
  \<open>None\<close> here.
\<close>

datatype ViewNode =
    ViewText string
  | ViewElement string "(string \<times> string) list" "ViewNode list"

fun name :: "ViewNode \<Rightarrow> string option" where
  "name (ViewText t) = None"
| "name (ViewElement n as cs) = Some n"

fun getChildren :: "ViewNode \<Rightarrow> ViewNode list" where
  "getChildren (ViewText t) = []"
| "getChildren (ViewElement n as cs) = cs"

fun getAttribute :: "ViewNode \<Rightarrow> string \<Rightarrow> string option" where
  "getAttribute (ViewText t) k = None"
| "getAttribute (ViewElement n as cs) k = map_of as k"

text \<open>\<open>node.is( 'element', n )\<close>: the node is an element whose name is \<open>n\<close>.\<close>

fun is_element :: "ViewNode \<Rightarrow> string \<Rightarrow> bool" where
  "is_element (ViewText t) n = False"
| "is_element (ViewElement m as cs) n = (m = n)"

text \<open>\<open>element.isEmpty\<close>: the element has no child nodes at all.\<close>

definition isEmpty :: "ViewNode \<Rightarrow> bool" where
  "isEmpty v = (getChildren v = [])"

section \<open>JavaScript numbers and \<open>parseInt\<close>\<close>

text \<open>
  A number read from an attribute is \<open>NaN\<close> (\<open>None\<close>) or an integer. Numbers are
  mathematical integers here: the rounding of doubles beyond \<open>2^53\<close> and the length
  limit of arrays are not part of the model. Every comparison with \<open>NaN\<close> is false.
\<close>

type_synonym jsnum = "int option"

definition js_less :: "jsnum \<Rightarrow> jsnum \<Rightarrow> bool" where
  "js_less a b = (case a of None \<Rightarrow> False | Some x \<Rightarrow> (case b of None \<Rightarrow> False | Some y \<Rightarrow> x < y))"

text \<open>
  A string is the list of the bytes of its UTF-8 encoding. The white space that
  \<open>parseInt\<close> skips is TAB, LF, VT, FF, CR and SP, one byte each, and the characters
  U+00A0, U+1680, U+2000 to U+200A, U+2028, U+2029, U+202F, U+205F, U+3000 and U+FEFF,
  two or three bytes each.
\<close>

definition isWhiteSpace :: "char \<Rightarrow> bool" where
  "isWhiteSpace c = (let n = (of_char c :: nat) in (9 \<le> n \<and> n \<le> 13) \<or> n = 32)"

definition isWhiteSpace2 :: "char \<Rightarrow> char \<Rightarrow> bool" where
  "isWhiteSpace2 a b = ((of_char a :: nat) = 194 \<and> (of_char b :: nat) = 160)"

definition isWhiteSpace3 :: "char \<Rightarrow> char \<Rightarrow> char \<Rightarrow> bool" where
  "isWhiteSpace3 a b c =
     (let x = (of_char a :: nat); y = (of_char b :: nat); z = (of_char c :: nat) in
      (x = 225 \<and> y = 154 \<and> z = 128)
      \<or> (x = 226 \<and> y = 128 \<and> ((128 \<le> z \<and> z \<le> 138) \<or> z = 168 \<or> z = 169 \<or> z = 175))
      \<or> (x = 226 \<and> y = 129 \<and> z = 159)
      \<or> (x = 227 \<and> y = 128 \<and> z = 128)
      \<or> (x = 239 \<and> y = 187 \<and> z = 191))"

fun skipWhiteSpace :: "string \<Rightarrow> string" where
  "skipWhiteSpace [] = []"
| "skipWhiteSpace [a] = (if isWhiteSpace a then [] else [a])"
| "skipWhiteSpace [a, b] =
     (if isWhiteSpace a then skipWhiteSpace [b]
      else if isWhiteSpace2 a b then [] else [a, b])"
| "skipWhiteSpace (a # b # c # r) =
     (if isWhiteSpace a then skipWhiteSpace (b # c # r)
      else if isWhiteSpace2 a b then skipWhiteSpace (c # r)
      else if isWhiteSpace3 a b c then skipWhiteSpace r
      else a # b # c # r)"

definition digitValue :: "char \<Rightarrow> nat option" where
  "digitValue c = (let n = (of_char c :: nat) in
     if 48 \<le> n \<and> n \<le> 57 then Some (n - 48)
     else if 97 \<le> n \<and> n \<le> 122 then Some (n - 87)
     else if 65 \<le> n \<and> n \<le> 90 then Some (n - 55)
     else None)"

definition isDigit :: "nat \<Rightarrow> char \<Rightarrow> bool" where
  "isDigit R c = (case digitValue c of None \<Rightarrow> False | Some d \<Rightarrow> d < R)"

definition digitsValue :: "nat \<Rightarrow> string \<Rightarrow> nat" where
  "digitsValue R Z = foldl (\<lambda>acc c. acc * R + (case digitValue c of None \<Rightarrow> 0 | Some d \<Rightarrow> d)) 0 Z"

text \<open>
  \<open>parseInt( s )\<close> with no radix: leading white space is skipped, a sign is read, a
  \<open>0x\<close> or \<open>0X\<close> prefix selects radix 16 (radix 10 otherwise), and the longest run of
  digits is the value; with no digit the result is \<open>NaN\<close>.
\<close>

definition parseInt :: "string \<Rightarrow> jsnum" where
  "parseInt inputString =
     (let S = skipWhiteSpace inputString;
          sign = (case S of [] \<Rightarrow> 1 | c # r \<Rightarrow> if c = CHR ''-'' then - 1 else (1::int));
          S1 = (case S of [] \<Rightarrow> S | c # r \<Rightarrow> if c = CHR ''+'' \<or> c = CHR ''-'' then r else S);
          hex = (case S1 of a # b # r \<Rightarrow> a = CHR ''0'' \<and> (b = CHR ''x'' \<or> b = CHR ''X'') | _ \<Rightarrow> False);
          R = (if hex then 16 else 10);
          S2 = (if hex then drop 2 S1 else S1);
          Z = takeWhile (isDigit R) S2
      in if Z = [] then None else Some (sign * int (digitsValue R Z)))"

text \<open>\<open>a || d\<close> on an attribute value: \<open>undefined\<close> and the empty string are falsy.\<close>

definition or_default :: "string option \<Rightarrow> string \<Rightarrow> string" where
  "or_default a d = (case a of None \<Rightarrow> d | Some s \<Rightarrow> if s = [] then d else s)"

section \<open>The cell matrix (\<open>generateCellMatrix\<close>)\<close>

text \<open>
  A slot holds a cell or \<open>null\<close>. The maps \<open>prevRowspans\<close> and \<open>curRowspans\<close> are
  JavaScript \<open>Map\<close>s from a column index to \<open>{ cell, remaining }\<close>: association lists in
  insertion order, read with \<open>map_of\<close> and written with \<open>AList.update\<close> (which replaces
  the value of a key in place and appends a new key, as \<open>Map.set\<close> does).
\<close>

type_synonym slot = "ViewNode option"

type_synonym rowspans = "(nat \<times> ViewNode \<times> int) list"

type_synonym row_state = "ViewNode list \<times> slot list \<times> rowspans"

text \<open>
  The loop \<open>for ( let i = 0; i < colspan; i++ )\<close>: it records the cell in
  \<open>curRowspans\<close> at the current column when \<open>rowspan > 1\<close> and pushes the cell.
\<close>

function colspan_loop ::
  "int \<Rightarrow> jsnum \<Rightarrow> jsnum \<Rightarrow> ViewNode \<Rightarrow> slot list \<Rightarrow> rowspans \<Rightarrow> slot list \<times> rowspans" where
  "colspan_loop i colspan rowspan cell curSlots curRowspans =
     (if js_less (Some i) colspan then
        colspan_loop (i + 1) colspan rowspan cell (curSlots @ [Some cell])
          (case rowspan of
             None \<Rightarrow> curRowspans
           | Some r \<Rightarrow> if 1 < r then AList.update (length curSlots) (cell, r - 1) curRowspans
               else curRowspans)
      else (curSlots, curRowspans))"
  by pat_completeness auto
termination
  by (relation "measure (\<lambda>(i, colspan, rest). case colspan of None \<Rightarrow> 0 | Some c \<Rightarrow> nat (c - i))")
    (auto simp: js_less_def split: option.splits)

declare colspan_loop.simps [simp del]

text \<open>
  The branch of the \<open>while\<close> body taken when no cell of a previous row spans into the
  current column: \<open>children.shift()\<close> gives the next cell, which fills \<open>colspan\<close> slots,
  or \<open>undefined\<close>, and then the slot is \<open>null\<close>.
\<close>

definition take_cell :: "row_state \<Rightarrow> row_state" where
  "take_cell s = (case s of (children, curSlots, curRowspans) \<Rightarrow>
     (case children of
        [] \<Rightarrow> (children, curSlots @ [None], curRowspans)
      | cell # rest \<Rightarrow>
          (let colspan = parseInt (or_default (getAttribute cell ''colspan'') ''1'');
               rowspan = parseInt (or_default (getAttribute cell ''rowspan'') ''1'')
           in case colspan_loop 0 colspan rowspan cell curSlots curRowspans of
                (curSlots', curRowspans') \<Rightarrow> (rest, curSlots', curRowspans'))))"

text \<open>The condition and the body of \<open>while ( children.length || curSlots.length < maxColumns )\<close>.\<close>

definition row_cond :: "nat \<Rightarrow> row_state \<Rightarrow> bool" where
  "row_cond maxColumns s = (case s of (children, curSlots, curRowspans) \<Rightarrow>
     children \<noteq> [] \<or> length curSlots < maxColumns)"

definition row_step :: "rowspans \<Rightarrow> row_state \<Rightarrow> row_state" where
  "row_step prevRowspans s = (case s of (children, curSlots, curRowspans) \<Rightarrow>
     (case map_of prevRowspans (length curSlots) of
        None \<Rightarrow> take_cell s
      | Some (cell, remaining) \<Rightarrow>
          if 0 < remaining then (children, curSlots @ [Some cell], curRowspans)
          else take_cell s))"

text \<open>
  What decreases in the \<open>while\<close> loop: the number of remaining children, and below it
  the columns still missing up to \<open>maxColumns\<close> plus the entries of \<open>prevRowspans\<close> at
  or right of the current column.
\<close>

definition row_slack :: "rowspans \<Rightarrow> nat \<Rightarrow> row_state \<Rightarrow> nat" where
  "row_slack prevRowspans maxColumns s = (case s of (children, curSlots, curRowspans) \<Rightarrow>
     (maxColumns - length curSlots)
       + length (filter (\<lambda>e. length curSlots \<le> fst e) prevRowspans))"

lemma take_cell_children:
  "fst (take_cell (c # cs, curSlots, curRowspans)) = cs"
  by (simp add: take_cell_def Let_def split: prod.splits)

lemma row_step_decreases:
  assumes "row_cond maxColumns s"
  shows "length (fst (row_step prevRowspans s)) < length (fst s)
       \<or> (length (fst (row_step prevRowspans s)) = length (fst s)
          \<and> row_slack prevRowspans maxColumns (row_step prevRowspans s)
              < row_slack prevRowspans maxColumns s)"
proof -
  obtain children curSlots curRowspans where s: "s = (children, curSlots, curRowspans)"
    by (cases s) auto
  let ?n = "length curSlots"
  let ?f = "\<lambda>k. length (filter (\<lambda>e. k \<le> fst e) prevRowspans)"
  have mono: "?f (Suc ?n) \<le> ?f ?n"
  proof -
    have "filter (\<lambda>e. Suc ?n \<le> fst e) prevRowspans
        = filter (\<lambda>e. Suc ?n \<le> fst e) (filter (\<lambda>e. ?n \<le> fst e) prevRowspans)"
      by (simp add: conj_commute) (rule filter_cong, auto)
    then show ?thesis by (metis length_filter_le)
  qed
  have strict: "?f (Suc ?n) < ?f ?n" if "map_of prevRowspans ?n = Some v" for v
  proof -
    have mem: "(?n, v) \<in> set (filter (\<lambda>e. ?n \<le> fst e) prevRowspans)"
      using that by (auto dest: map_of_SomeD)
    have "filter (\<lambda>e. Suc ?n \<le> fst e) prevRowspans
        = filter (\<lambda>e. Suc ?n \<le> fst e) (filter (\<lambda>e. ?n \<le> fst e) prevRowspans)"
      by (simp add: conj_commute) (rule filter_cong, auto)
    moreover have "length (filter (\<lambda>e. Suc ?n \<le> fst e) (filter (\<lambda>e. ?n \<le> fst e) prevRowspans))
        < length (filter (\<lambda>e. ?n \<le> fst e) prevRowspans)"
      by (rule length_filter_less[OF mem]) simp
    ultimately show ?thesis by simp
  qed
  show ?thesis
  proof (cases "map_of prevRowspans ?n")
    case None
    show ?thesis
    proof (cases children)
      case Nil
      with assms s have "?n < maxColumns" by (simp add: row_cond_def)
      with None Nil s mono show ?thesis
        by (simp add: row_step_def take_cell_def row_slack_def)
    next
      case (Cons c cs)
      with None s show ?thesis
        by (simp add: row_step_def take_cell_children)
    qed
  next
    case (Some v)
    obtain cell remaining where v: "v = (cell, remaining)" by (cases v) auto
    show ?thesis
    proof (cases "0 < remaining")
      case True
      with Some v s strict[OF Some] show ?thesis
        by (simp add: row_step_def row_slack_def)
    next
      case False
      show ?thesis
      proof (cases children)
        case Nil
        with assms s have "?n < maxColumns" by (simp add: row_cond_def)
        with Some v False Nil s mono show ?thesis
          by (simp add: row_step_def take_cell_def row_slack_def)
      next
        case (Cons c cs)
        with Some v False s show ?thesis
          by (simp add: row_step_def take_cell_children)
      qed
    qed
  qed
qed

function row_loop :: "rowspans \<Rightarrow> nat \<Rightarrow> row_state \<Rightarrow> row_state" where
  "row_loop prevRowspans maxColumns s =
     (if row_cond maxColumns s then row_loop prevRowspans maxColumns (row_step prevRowspans s)
      else s)"
  by pat_completeness auto
termination
proof (relation "measures [\<lambda>(prevRowspans, maxColumns, s). length (fst s),
    \<lambda>(prevRowspans, maxColumns, s). row_slack prevRowspans maxColumns s]")
  show "wf (measures [\<lambda>(prevRowspans, maxColumns, s). length (fst s),
    \<lambda>(prevRowspans, maxColumns, s). row_slack prevRowspans maxColumns s])"
    by simp
next
  fix prevRowspans :: rowspans and maxColumns :: nat and s :: row_state
  assume "row_cond maxColumns s"
  from row_step_decreases[OF this, of prevRowspans]
  show "((prevRowspans, maxColumns, row_step prevRowspans s), (prevRowspans, maxColumns, s))
    \<in> measures [\<lambda>(prevRowspans, maxColumns, s). length (fst s),
        \<lambda>(prevRowspans, maxColumns, s). row_slack prevRowspans maxColumns s]"
    by auto
qed

declare row_loop.simps [simp del]

text \<open>
  The loop over \<open>prevRowspans.entries()\<close> after a row: every entry loses one remaining
  row, and is carried into \<open>curRowspans\<close> when rows remain and the column is not taken
  by a cell of the current row.
\<close>

definition carry_rowspans :: "rowspans \<Rightarrow> rowspans \<Rightarrow> rowspans" where
  "carry_rowspans prevRowspans curRowspans =
     fold (\<lambda>(index, cell, remaining) cur.
             if 0 < remaining - 1 \<and> map_of cur index = None
             then AList.update index (cell, remaining - 1) cur else cur)
          prevRowspans curRowspans"

text \<open>
  The callback of \<open>trs.map\<close>. The variables \<open>prevRowspans\<close> and \<open>maxColumns\<close> of the
  enclosing function are passed in and returned updated.
\<close>

definition cell_children :: "ViewNode \<Rightarrow> ViewNode list" where
  "cell_children tr =
     filter (\<lambda>child. name child = Some ''th'' \<or> name child = Some ''td'') (getChildren tr)"

definition tr_slots :: "rowspans \<times> nat \<Rightarrow> ViewNode \<Rightarrow> slot list \<times> rowspans \<times> nat" where
  "tr_slots st tr = (case st of (prevRowspans, maxColumns) \<Rightarrow>
     (case row_loop prevRowspans maxColumns (cell_children tr, [], []) of
        (children, curSlots, curRowspans) \<Rightarrow>
          (curSlots, carry_rowspans prevRowspans curRowspans, max maxColumns (length curSlots))))"

fun map_trs :: "rowspans \<times> nat \<Rightarrow> ViewNode list \<Rightarrow> slot list list \<times> rowspans \<times> nat" where
  "map_trs st [] = ([], st)"
| "map_trs st (tr # trs) =
     (case tr_slots st tr of (curSlots, st') \<Rightarrow>
        (case map_trs st' trs of (slots, st'') \<Rightarrow> (curSlots # slots, st'')))"

text \<open>\<open>while ( rowSlots.length < maxColumns ) rowSlots.push( null )\<close>.\<close>

function pad_row :: "nat \<Rightarrow> slot list \<Rightarrow> slot list" where
  "pad_row maxColumns rowSlots =
     (if length rowSlots < maxColumns then pad_row maxColumns (rowSlots @ [None]) else rowSlots)"
  by pat_completeness auto
termination
  by (relation "measure (\<lambda>(maxColumns, rowSlots). maxColumns - length rowSlots)") auto

declare pad_row.simps [simp del]

text \<open>The rows before padding, and the final value of \<open>maxColumns\<close>.\<close>

definition unpadded_slots :: "ViewNode list \<Rightarrow> slot list list" where
  "unpadded_slots trs = fst (map_trs ([], 0) trs)"

definition final_maxColumns :: "ViewNode list \<Rightarrow> nat" where
  "final_maxColumns trs = snd (snd (map_trs ([], 0) trs))"

definition generateCellMatrix :: "ViewNode list \<Rightarrow> slot list list" where
  "generateCellMatrix trs = map (pad_row (final_maxColumns trs)) (unpadded_slots trs)"

section \<open>Scanning a view table (\<open>scanTable\<close>)\<close>

text \<open>
  The local variables of \<open>scanTable\<close> while it walks the children of the table:
  \<open>headingRows\<close>, \<open>headRows\<close>, \<open>bodyRows\<close> and \<open>firstTheadElement\<close>. The last one is
  a reference to a child of the table, compared with \<open>===\<close>; every child object occurs
  once in the child array, so the reference is the position of the child in that array
  (\<open>None\<close> while the variable is \<open>undefined\<close>).
\<close>

type_synonym scan_state = "nat \<times> ViewNode list \<times> ViewNode list \<times> nat option"

text \<open>
  The loop \<open>for ( const tr of trs )\<close> over the rows of the section \<open>tableChild\<close>, which
  is child number \<open>i\<close> of the table.
\<close>

fun scan_trs :: "nat \<Rightarrow> ViewNode \<Rightarrow> ViewNode list \<Rightarrow> scan_state \<Rightarrow> scan_state" where
  "scan_trs i tableChild [] st = st"
| "scan_trs i tableChild (tr # trs) (headingRows, headRows, bodyRows, firstTheadElement) =
     (if (firstTheadElement \<noteq> None \<and> Some i = firstTheadElement)
         \<or> (name tableChild = Some ''tbody''
            \<and> length (getChildren tr) \<noteq> 0
            \<and> list_all (\<lambda>e. is_element e ''th'') (getChildren tr))
      then scan_trs i tableChild trs (headingRows + 1, headRows @ [tr], bodyRows, firstTheadElement)
      else scan_trs i tableChild trs (headingRows, headRows, bodyRows @ [tr], firstTheadElement))"

text \<open>The loop over the children of the table; \<open>i\<close> is the position of the next child.\<close>

fun scan_children :: "nat \<Rightarrow> ViewNode list \<Rightarrow> scan_state \<Rightarrow> scan_state" where
  "scan_children i [] st = st"
| "scan_children i (tableChild # more) (headingRows, headRows, bodyRows, firstTheadElement) =
     (if name tableChild \<noteq> Some ''tbody'' \<and> name tableChild \<noteq> Some ''thead''
         \<and> name tableChild \<noteq> Some ''tfoot''
      then scan_children (i + 1) more (headingRows, headRows, bodyRows, firstTheadElement)
      else
        (let firstTheadElement' =
               (if name tableChild = Some ''thead'' \<and> firstTheadElement = None then Some i
                else firstTheadElement);
             trs = filter (\<lambda>el. is_element el ''tr'') (getChildren tableChild)
         in scan_children (i + 1) more
              (scan_trs i tableChild trs (headingRows, headRows, bodyRows, firstTheadElement'))))"

text \<open>\<open>rowSlots[ index ]?.name\<close>: \<open>undefined\<close> for an empty slot.\<close>

definition slot_name :: "slot \<Rightarrow> string option" where
  "slot_name sl = (case sl of None \<Rightarrow> None | Some cell \<Rightarrow> name cell)"

text \<open>The search for the first slot of a row that is not a \<open><th>\<close>, from \<open>index\<close> on.\<close>

function first_non_th :: "nat \<Rightarrow> slot list \<Rightarrow> nat" where
  "first_non_th index rowSlots =
     (if index < length rowSlots then
        (if slot_name (rowSlots ! index) \<noteq> Some ''th'' then index
         else first_non_th (index + 1) rowSlots)
      else index)"
  by pat_completeness auto
termination
  by (relation "measure (\<lambda>(index, rowSlots). length rowSlots - index)") auto

declare first_non_th.simps [simp del]

text \<open>
  The loop over the rows of the body matrix. \<open>!headingColumns\<close> holds when the variable
  is \<open>undefined\<close> and when it is \<open>0\<close>.
\<close>

fun scan_matrix :: "slot list list \<Rightarrow> nat option \<Rightarrow> nat option" where
  "scan_matrix [] headingColumns = headingColumns"
| "scan_matrix (rowSlots # more) headingColumns =
     (let index = first_non_th 0 rowSlots
      in scan_matrix more
           (if headingColumns = None \<or> headingColumns = Some 0
               \<or> (case headingColumns of None \<Rightarrow> False | Some h \<Rightarrow> index < h)
            then Some index else headingColumns))"

record scan_result =
  headingRows :: nat
  headingColumns :: nat
  rows :: "ViewNode list"

definition scanTable :: "ViewNode \<Rightarrow> scan_result" where
  "scanTable viewTable =
     (case scan_children 0 (getChildren viewTable) (0, [], [], None) of
        (nHeadingRows, headRows, bodyRows, firstTheadElement) \<Rightarrow>
          (let bodyMatrix = generateCellMatrix bodyRows;
               nHeadingColumns = scan_matrix bodyMatrix None
           in \<lparr> headingRows = nHeadingRows,
                headingColumns = (case nHeadingColumns of None \<Rightarrow> 0 | Some h \<Rightarrow> h),
                rows = headRows @ bodyRows \<rparr>))"

text \<open>The body rows of a table, as \<open>scanTable\<close> passes them to \<open>generateCellMatrix\<close>.\<close>

definition scanned_bodyRows :: "ViewNode \<Rightarrow> ViewNode list" where
  "scanned_bodyRows viewTable =
     (case scan_children 0 (getChildren viewTable) (0, [], [], None) of
        (nHeadingRows, headRows, bodyRows, firstTheadElement) \<Rightarrow> bodyRows)"

subsection \<open>The classification of rows, in the words of the specification\<close>





text \<open>
  A row is a heading row when its section is the first \<open><thead>\<close>, or when its section
  is a \<open><tbody>\<close> and the row has children, all of them \<open><th>\<close> elements.
\<close>

definition is_heading :: "nat option \<Rightarrow> nat \<times> ViewNode \<times> ViewNode \<Rightarrow> bool" where
  "is_heading firstThead r = (case r of (i, sec, tr) \<Rightarrow>
     firstThead = Some i
     \<or> (name sec = Some ''tbody'' \<and> getChildren tr \<noteq> []
        \<and> list_all (\<lambda>e. is_element e ''th'') (getChildren tr)))"





section \<open>The model tree, the consumables and the conversion API\<close>

text \<open>
  Modelled from the spec: the model tree and its positions (section 3). The converters
  of \<open>upcasttable.ts\<close> work on the dispatcher's \<open>conversionApi\<close>, which belongs to the
  engine and not to the table package. The model tree is a tree of values, an element
  of the tree is referred to by its path from the root, and a position is the path of
  its parent and an index among the children of the parent.
\<close>

datatype ModelNode =
    ModelText string
  | ModelElement string "(string \<times> nat) list" "ModelNode list"

fun model_children :: "ModelNode \<Rightarrow> ModelNode list" where
  "model_children (ModelText t) = []"
| "model_children (ModelElement n as cs) = cs"

type_synonym path = "nat list"

record position =
  parent :: path
  index :: nat

fun node_at :: "path \<Rightarrow> ModelNode \<Rightarrow> ModelNode option" where
  "node_at [] n = Some n"
| "node_at (i # p) (ModelElement n as cs) = (if i < length cs then node_at p (cs ! i) else None)"
| "node_at (i # p) (ModelText t) = None"

definition children_at :: "path \<Rightarrow> ModelNode \<Rightarrow> ModelNode list" where
  "children_at p doc = (case node_at p doc of None \<Rightarrow> [] | Some n \<Rightarrow> model_children n)"

text \<open>A position of the document: its parent is an element with at least \<open>index\<close> children.\<close>

definition valid_position :: "ModelNode \<Rightarrow> position \<Rightarrow> bool" where
  "valid_position doc pos =
     (case node_at (parent pos) doc of
        Some (ModelElement n as cs) \<Rightarrow> index pos \<le> length cs
      | _ \<Rightarrow> False)"

text \<open>Inserting nodes at index \<open>k\<close> under the element with path \<open>p\<close>.\<close>

fun insert_at :: "path \<Rightarrow> nat \<Rightarrow> ModelNode list \<Rightarrow> ModelNode \<Rightarrow> ModelNode" where
  "insert_at [] k ns (ModelElement n as cs) = ModelElement n as (take k cs @ ns @ drop k cs)"
| "insert_at (i # p) k ns (ModelElement n as cs) =
     (if i < length cs then ModelElement n as (cs[i := insert_at p k ns (cs ! i)])
      else ModelElement n as cs)"
| "insert_at p k ns (ModelText t) = ModelText t"

text \<open>
  Modelled from the spec: \<open>element.isEmpty\<close> and
  \<open>writer.createPositionAt( element, 'end' )\<close> for a model element.
\<close>

definition element_isEmpty :: "path \<Rightarrow> ModelNode \<Rightarrow> bool" where
  "element_isEmpty el doc = (children_at el doc = [])"

definition createPositionAt_end :: "path \<Rightarrow> ModelNode \<Rightarrow> position" where
  "createPositionAt_end el doc = \<lparr> parent = el, index = length (children_at el doc) \<rparr>"

text \<open>
  Modelled from the spec: the consumable tracker (section 4.2), which belongs to the
  engine. A view item is identified by its value. The tracker maps a view item and an
  aspect of it (its name, one of its classes) to a flag: no flag for an aspect never
  registered, \<open>True\<close> for an available one, \<open>False\<close> for a consumed one. A descriptor such as \<open>{ name: true, classes: 'table' }\<close> is
  the list of the aspects it names. \<open>test\<close> gives \<open>null\<close> (\<open>None\<close>), \<open>false\<close> or \<open>true\<close>;
  \<open>consume\<close> marks the aspects as used when all of them are available and tells whether
  it did; \<open>revert\<close> makes the consumed aspects available again.
\<close>

datatype consumable_aspect = Name | Class string

type_synonym descriptor = "consumable_aspect list"

type_synonym consumables = "ViewNode \<times> consumable_aspect \<Rightarrow> bool option"

record conv_state =
  consumable :: consumables
  document :: ModelNode

fun consumable_test :: "consumables \<Rightarrow> ViewNode \<Rightarrow> descriptor \<Rightarrow> bool option" where
  "consumable_test c item [] = Some True"
| "consumable_test c item (a # d) =
     (case c (item, a) of
        None \<Rightarrow> None
      | Some False \<Rightarrow> Some False
      | Some True \<Rightarrow> consumable_test c item d)"

fun mark_consumed :: "consumables \<Rightarrow> ViewNode \<Rightarrow> descriptor \<Rightarrow> consumables" where
  "mark_consumed c item [] = c"
| "mark_consumed c item (a # d) = mark_consumed (c((item, a) := Some False)) item d"

definition consumable_consume :: "ViewNode \<Rightarrow> descriptor \<Rightarrow> conv_state \<Rightarrow> bool \<times> conv_state" where
  "consumable_consume item d s =
     (if consumable_test (consumable s) item d = Some True
      then (True, s\<lparr> consumable := mark_consumed (consumable s) item d \<rparr>)
      else (False, s))"



text \<open>
  Modelled from the spec: what the rest of the dispatcher contributes (sections 4.3
  and 6), taken as parameters: the schema check
  behind \<open>safeInsert\<close>, and what the registered converters produce for an item and for
  the children of an item at a cursor (the nodes to insert, \<open>None\<close> for a \<open>null\<close> range,
  and the consumables afterwards).
\<close>

record conversionApi =
  schema_allows :: "ModelNode \<Rightarrow> position \<Rightarrow> ModelNode \<Rightarrow> bool"
  item_results :: "ViewNode \<Rightarrow> position \<Rightarrow> conv_state \<Rightarrow> ModelNode list option \<times> consumables"
  children_results :: "ViewNode \<Rightarrow> position \<Rightarrow> conv_state \<Rightarrow> ModelNode list \<times> consumables"

type_synonym model_range = "position \<times> position"

text \<open>
  Modelled from the spec: \<open>safeInsert\<close> (section 4.3), which belongs to the engine.
  It inserts the element at the cursor, and fails with no side effect if the insertion
  would violate the schema.
\<close>

definition safeInsert :: "conversionApi \<Rightarrow> ModelNode \<Rightarrow> position \<Rightarrow> conv_state \<Rightarrow> bool \<times> conv_state" where
  "safeInsert api el pos s =
     (if schema_allows api el pos (document s)
      then (True, s\<lparr> document := insert_at (parent pos) (index pos) [el] (document s) \<rparr>)
      else (False, s))"

text \<open>
  Modelled from the spec: \<open>convertItem\<close> and \<open>convertChildren\<close> (section 4.3), which
  belong to the engine. They insert the results of the conversion starting at the
  cursor and return the range of the inserted content and the cursor after it;
  \<open>convertItem\<close> may return a \<open>null\<close> range when nothing converted the item.
\<close>

definition convertItem ::
  "conversionApi \<Rightarrow> ViewNode \<Rightarrow> position \<Rightarrow> conv_state \<Rightarrow> (model_range option \<times> position) \<times> conv_state" where
  "convertItem api item pos s =
     (case item_results api item pos s of
        (None, c) \<Rightarrow> ((None, pos), s\<lparr> consumable := c \<rparr>)
      | (Some ns, c) \<Rightarrow>
          ((Some (pos, pos\<lparr> index := index pos + length ns \<rparr>), pos\<lparr> index := index pos + length ns \<rparr>),
           \<lparr> consumable = c, document = insert_at (parent pos) (index pos) ns (document s) \<rparr>))"

definition convertChildren ::
  "conversionApi \<Rightarrow> ViewNode \<Rightarrow> position \<Rightarrow> conv_state \<Rightarrow> (model_range \<times> position) \<times> conv_state" where
  "convertChildren api item pos s =
     (case children_results api item pos s of
        (ns, c) \<Rightarrow>
          (((pos, pos\<lparr> index := index pos + length ns \<rparr>), pos\<lparr> index := index pos + length ns \<rparr>),
           \<lparr> consumable = c, document = insert_at (parent pos) (index pos) ns (document s) \<rparr>))"

text \<open>The \<open>data\<close> object of a conversion event, and the event itself with its stop flag.\<close>

record conversion_data =
  viewItem :: ViewNode
  modelCursor :: position
  modelRange :: "model_range option"

record event_info =
  stop_called :: bool

text \<open>
  Modelled from the spec: \<open>updateConversionResult\<close> (section 4.3), which belongs to
  the engine. It merges the element into the result of the conversion: the range on
  the element, and the cursor after it.
\<close>

definition updateConversionResult :: "path \<Rightarrow> conversion_data \<Rightarrow> conversion_data" where
  "updateConversionResult el data =
     (let before = \<lparr> parent = butlast el, index = last el \<rparr>;
          after = \<lparr> parent = butlast el, index = last el + 1 \<rparr>
      in data\<lparr> modelRange := (case modelRange data of None \<Rightarrow> Some (before, after) | Some r \<Rightarrow> Some r),
               modelCursor := after \<rparr>)"

text \<open>
  Modelled from the spec: \<open>writer.insert\<close> of a new element at a position, and
  \<open>createEmptyTableCell\<close> of \<open>utils/common\<close>, which puts one empty table cell at the
  position (section 4.5, step 3).
\<close>

definition writer_insert :: "ModelNode \<Rightarrow> position \<Rightarrow> conv_state \<Rightarrow> conv_state" where
  "writer_insert el pos s = s\<lparr> document := insert_at (parent pos) (index pos) [el] (document s) \<rparr>"

definition createEmptyTableCell :: "position \<Rightarrow> conv_state \<Rightarrow> conv_state" where
  "createEmptyTableCell pos s = writer_insert (ModelElement ''tableCell'' [] []) pos s"


section \<open>The converters of \<open>upcasttable.ts\<close>\<close>

subsection \<open>\<open>upcastTable\<close>: the listener on \<open>element:table\<close>\<close>

text \<open>The attributes of the model table: each is set only when its value is not \<open>0\<close>.\<close>

definition table_attributes :: "scan_result \<Rightarrow> (string \<times> nat) list" where
  "table_attributes sc =
     (if headingColumns sc \<noteq> 0 then [(''headingColumns'', headingColumns sc)] else [])
     @ (if headingRows sc \<noteq> 0 then [(''headingRows'', headingRows sc)] else [])"

text \<open>\<open>writer.createElement( 'table', attributes )\<close> for a view table.\<close>

definition new_table :: "ViewNode \<Rightarrow> ModelNode" where
  "new_table viewTable = ModelElement ''table'' (table_attributes (scanTable viewTable)) []"

text \<open>The path of an element inserted at a position.\<close>

definition inserted_at :: "position \<Rightarrow> path" where
  "inserted_at pos = parent pos @ [index pos]"

text \<open>\<open>rows.forEach( row => convertItem( row, createPositionAt( table, 'end' ) ) )\<close>.\<close>

fun convert_rows :: "conversionApi \<Rightarrow> path \<Rightarrow> ViewNode list \<Rightarrow> conv_state \<Rightarrow> conv_state" where
  "convert_rows api table [] s = s"
| "convert_rows api table (row # remaining) s =
     convert_rows api table remaining
       (snd (convertItem api row (createPositionAt_end table (document s)) s))"

text \<open>The rows, and then everything else of the view table, converted into the model table.\<close>

definition convert_contents :: "conversionApi \<Rightarrow> ViewNode \<Rightarrow> path \<Rightarrow> conv_state \<Rightarrow> conv_state" where
  "convert_contents api viewTable table s =
     (let s' = convert_rows api table (rows (scanTable viewTable)) s
      in snd (convertChildren api viewTable (createPositionAt_end table (document s')) s'))"

text \<open>The block \<open>if ( table.isEmpty ) { ... }\<close>: one row with one table cell for an empty table.\<close>

definition fill_empty_table :: "path \<Rightarrow> conv_state \<Rightarrow> conv_state" where
  "fill_empty_table table s =
     (if element_isEmpty table (document s) then
        (let pos = createPositionAt_end table (document s);
             s' = writer_insert (ModelElement ''tableRow'' [] []) pos s;
             row = inserted_at pos
         in createEmptyTableCell (createPositionAt_end row (document s')) s')
      else s)"

definition upcastTable :: "conversionApi \<Rightarrow> conversion_data \<Rightarrow> conv_state \<Rightarrow> conversion_data \<times> conv_state" where
  "upcastTable api data s =
     (let viewTable = viewItem data in
      if consumable_test (consumable s) viewTable [Name] \<noteq> Some True then (data, s)
      else
        (case safeInsert api (new_table viewTable) (modelCursor data) s of
           (False, s1) \<Rightarrow> (data, s1)
         | (True, s1) \<Rightarrow>
             (let table = inserted_at (modelCursor data);
                  s2 = snd (consumable_consume viewTable [Name] s1);
                  s3 = convert_contents api viewTable table s2;
                  s4 = fill_empty_table table s3
              in (updateConversionResult table data, s4))))"

text \<open>
  The state in which \<open>upcastTable\<close> reads \<open>table.isEmpty\<close>: after the table was inserted,
  its view element consumed, and its rows and other children converted.
\<close>

definition table_converted :: "conversionApi \<Rightarrow> conversion_data \<Rightarrow> conv_state \<Rightarrow> conv_state" where
  "table_converted api data s =
     convert_contents api (viewItem data) (inserted_at (modelCursor data))
       (snd (consumable_consume (viewItem data) [Name]
          (snd (safeInsert api (new_table (viewItem data)) (modelCursor data) s))))"

subsection \<open>\<open>upcastTableFigure\<close>: the listener on \<open>element:figure\<close>\<close>




subsection \<open>\<open>skipEmptyTableRow\<close>: the high-priority listener on \<open>element:tr\<close>\<close>

definition skipEmptyTableRow :: "event_info \<Rightarrow> conversion_data \<Rightarrow> event_info" where
  "skipEmptyTableRow evt data =
     (if isEmpty (viewItem data) \<and> index (modelCursor data) = 0
      then evt\<lparr> stop_called := True \<rparr> else evt)"

text \<open>
  Modelled from the spec: the dispatch of \<open>element:tr\<close> for one row (section 4.3). The
  guard has priority \<open>high\<close> and runs first; when it stops the event no other listener
  runs and nothing is converted, and otherwise the remaining listeners convert the row
  into the model node \<open>rowModel\<close> gives for it, a parameter.
\<close>

definition convert_tr ::
  "(ViewNode \<Rightarrow> ModelNode) \<Rightarrow> ViewNode \<Rightarrow> position \<Rightarrow> conv_state \<Rightarrow> ModelNode list option \<times> consumables" where
  "convert_tr rowModel item pos s =
     (if stop_called (skipEmptyTableRow \<lparr> stop_called = False \<rparr>
            \<lparr> viewItem = item, modelCursor = pos, modelRange = None \<rparr>)
      then (None, consumable s)
      else (Some [rowModel item], consumable s))"

definition rows_api :: "(ViewNode \<Rightarrow> ModelNode) \<Rightarrow> conversionApi" where
  "rows_api rowModel =
     \<lparr> schema_allows = (\<lambda>el pos doc. True),
       item_results = convert_tr rowModel,
       children_results = (\<lambda>item pos s. ([], consumable s)) \<rparr>"

subsection \<open>The leading heading slots of a row, in the words of the specification\<close>

definition leading_th :: "slot list \<Rightarrow> nat" where
  "leading_th rowSlots = length (takeWhile (\<lambda>sl. slot_name sl = Some ''th'') rowSlots)"

text \<open>A list of model nodes holds a table row that has at least one child.\<close>

definition has_row_with_cell :: "ModelNode list \<Rightarrow> bool" where
  "has_row_with_cell ns =
     list_ex (\<lambda>n. case n of ModelText t \<Rightarrow> False
                  | ModelElement nm as cs \<Rightarrow> nm = ''tableRow'' \<and> cs \<noteq> []) ns"

subsection \<open>Inputs for the examples\<close>

text \<open>
  Consumables with every aspect available and with nothing registered, a document that
  is an empty root, a cursor at the start of the root, and an API whose schema allows
  everything or nothing, whose converters produce nothing for an item and the given
  nodes for the children of an item.
\<close>

definition all_available :: consumables where
  "all_available = (\<lambda>k. Some True)"


definition root_state :: "consumables \<Rightarrow> conv_state" where
  "root_state c = \<lparr> consumable = c, document = ModelElement ''$root'' [] [] \<rparr>"

definition example_api :: "bool \<Rightarrow> ModelNode list \<Rightarrow> conversionApi" where
  "example_api allowed childNodes =
     \<lparr> schema_allows = (\<lambda>el pos doc. allowed),
       item_results = (\<lambda>item pos s. (Some [], consumable s)),
       children_results = (\<lambda>item pos s. (childNodes, consumable s)) \<rparr>"


definition table_state :: conv_state where
  "table_state =
     \<lparr> consumable = all_available,
       document = ModelElement ''$root'' [] [ModelElement ''table'' [] []] \<rparr>"

definition cells_row_model :: "ViewNode \<Rightarrow> ModelNode" where
  "cells_row_model tr =
     ModelElement ''tableRow'' [] (map (\<lambda>c. ModelElement ''tableCell'' [] []) (cell_children tr))"

definition example_data :: "ViewNode \<Rightarrow> conversion_data" where
  "example_data v = \<lparr> viewItem = v, modelCursor = \<lparr> parent = [], index = 0 \<rparr>, modelRange = None \<rparr>"

section \<open>Properties of the cell matrix\<close>


lemma row_loop_final: "\<not> row_cond maxColumns (row_loop prevRowspans maxColumns s)"
proof (induction prevRowspans maxColumns s rule: row_loop.induct)
  case (1 prevRowspans maxColumns s)
  then show ?case by (subst row_loop.simps) simp
qed



lemma colspan_loop_length:
  "length (fst (colspan_loop i colspan rowspan cell curSlots curRowspans))
     = length curSlots + (case colspan of None \<Rightarrow> 0 | Some c \<Rightarrow> nat (c - i))"
proof (induction i colspan rowspan cell curSlots curRowspans rule: colspan_loop.induct)
  case (1 i colspan rowspan cell curSlots curRowspans)
  show ?case
  proof (cases "js_less (Some i) colspan")
    case True
    then show ?thesis
      using "1.IH" by (subst colspan_loop.simps) (auto simp: js_less_def split: option.splits)
  next
    case False
    then show ?thesis
      by (subst colspan_loop.simps) (auto simp: js_less_def split: option.splits)
  qed
qed

lemma pad_row_replicate:
  "pad_row maxColumns rowSlots = rowSlots @ replicate (maxColumns - length rowSlots) None"
proof (induction maxColumns rowSlots rule: pad_row.induct)
  case (1 maxColumns rowSlots)
  show ?case
  proof (cases "length rowSlots < maxColumns")
    case True
    then have "maxColumns - length rowSlots = Suc (maxColumns - Suc (length rowSlots))" by simp
    with True "1.IH" show ?thesis
      by (subst pad_row.simps) (simp add: replicate_app_Cons_same)
  next
    case False
    then show ?thesis by (subst pad_row.simps) simp
  qed
qed

lemma tr_slots_maxColumns:
  assumes "tr_slots (prevRowspans, maxColumns) tr = (curSlots, prevRowspans', maxColumns')"
  shows "maxColumns' = length curSlots \<and> maxColumns \<le> maxColumns'"
proof -
  obtain ch cs cr where r: "row_loop prevRowspans maxColumns (cell_children tr, [], []) = (ch, cs, cr)"
    by (cases "row_loop prevRowspans maxColumns (cell_children tr, [], [])") auto
  have "\<not> row_cond maxColumns (ch, cs, cr)"
    using row_loop_final[of maxColumns prevRowspans "(cell_children tr, [], [])"] r by simp
  then have "maxColumns \<le> length cs" by (simp add: row_cond_def)
  with assms r show ?thesis by (auto simp: tr_slots_def)
qed

lemma map_trs_maxColumns:
  assumes "map_trs (prevRowspans, maxColumns) trs = (slots, prevRowspans', maxColumns')"
  shows "maxColumns \<le> maxColumns' \<and> (\<forall>r \<in> set slots. length r \<le> maxColumns')
       \<and> maxColumns' = fold max (map length slots) maxColumns"
  using assms
proof (induction trs arbitrary: prevRowspans maxColumns slots prevRowspans' maxColumns')
  case Nil
  then show ?case by simp
next
  case (Cons tr trs)
  obtain cs p1 m1 where t: "tr_slots (prevRowspans, maxColumns) tr = (cs, p1, m1)"
    by (cases "tr_slots (prevRowspans, maxColumns) tr") auto
  obtain rest p2 m2 where m: "map_trs (p1, m1) trs = (rest, p2, m2)"
    by (cases "map_trs (p1, m1) trs") auto
  from Cons.prems t m have eq: "slots = cs # rest" "maxColumns' = m2" by auto
  from tr_slots_maxColumns[OF t] have a: "m1 = length cs" "maxColumns \<le> m1" by auto
  from Cons.IH[OF m] have b: "m1 \<le> m2" "\<forall>r \<in> set rest. length r \<le> m2"
    "m2 = fold max (map length rest) m1" by auto
  from a have mx: "max (length cs) maxColumns = length cs" by simp
  from a b have "maxColumns \<le> m2" by simp
  moreover from a b have "\<forall>r \<in> set (cs # rest). length r \<le> m2" by simp
  moreover from a b mx have "m2 = fold max (map length (cs # rest)) maxColumns" by simp
  ultimately show ?case unfolding eq by blast
qed

text \<open>
  Claim C2, as amended. For one \<open><tbody>\<close> whose first row is
  \<open>[td, td with rowspan=2, td]\<close> and whose second row is \<open>[td]\<close>, the matrix is
  \<open>[[td, td(rowspan 2), td], [td, td(rowspan 2), null]]\<close>: in the second row the cell
  spanning from the first row keeps its own column, the second, and the third slot, for
  which the row has no cell, is \<open>null\<close>.
\<close>

theorem generateCellMatrix_rowspan_example:
  "generateCellMatrix
     [ViewElement ''tr'' []
        [ViewElement ''td'' [] [], ViewElement ''td'' [(''rowspan'', ''2'')] [],
         ViewElement ''td'' [] []],
      ViewElement ''tr'' [] [ViewElement ''td'' [] []]]
   = [[Some (ViewElement ''td'' [] []), Some (ViewElement ''td'' [(''rowspan'', ''2'')] []),
       Some (ViewElement ''td'' [] [])],
      [Some (ViewElement ''td'' [] []), Some (ViewElement ''td'' [(''rowspan'', ''2'')] []),
       None]]"
  by code_simp

text \<open>
  Claim C2 as the specification states it fails: the matrix of that input is not
  \<open>[[td, td, td], [td, null, td(rowspan 2)]]\<close>.
\<close>

theorem generateCellMatrix_rowspan_example_refuted:
  "generateCellMatrix
     [ViewElement ''tr'' []
        [ViewElement ''td'' [] [], ViewElement ''td'' [(''rowspan'', ''2'')] [],
         ViewElement ''td'' [] []],
      ViewElement ''tr'' [] [ViewElement ''td'' [] []]]
   \<noteq> [[Some (ViewElement ''td'' [] []), Some (ViewElement ''td'' [(''rowspan'', ''2'')] []),
       Some (ViewElement ''td'' [] [])],
      [Some (ViewElement ''td'' [] []), None,
       Some (ViewElement ''td'' [(''rowspan'', ''2'')] [])]]"
  by code_simp

text \<open>
  Claim C8. The matrix returned by \<open>generateCellMatrix\<close> is rectangular: every row has
  the length \<open>maxColumns\<close> has at the end, which is the greatest length of a row before
  padding, and each row is the row before padding followed by \<open>null\<close> slots.
\<close>

theorem generateCellMatrix_rectangular:
  "(\<forall>row \<in> set (generateCellMatrix trs). length row = final_maxColumns trs)
   \<and> final_maxColumns trs = fold max (map length (unpadded_slots trs)) 0
   \<and> generateCellMatrix trs
       = map (\<lambda>row. row @ replicate (final_maxColumns trs - length row) None) (unpadded_slots trs)"
proof -
  obtain slots p m where r: "map_trs ([], 0) trs = (slots, p, m)"
    by (cases "map_trs ([], 0) trs") auto
  from map_trs_maxColumns[OF r]
  have le: "\<forall>row \<in> set slots. length row \<le> m" and mx: "m = fold max (map length slots) 0"
    by auto
  have fm: "final_maxColumns trs = m" and us: "unpadded_slots trs = slots"
    using r by (simp_all add: final_maxColumns_def unpadded_slots_def)
  have g: "generateCellMatrix trs = map (\<lambda>row. row @ replicate (m - length row) None) slots"
    unfolding generateCellMatrix_def fm us by (simp add: pad_row_replicate)
  have "\<forall>row \<in> set (generateCellMatrix trs). length row = m"
  proof
    fix row assume "row \<in> set (generateCellMatrix trs)"
    then obtain r where "r \<in> set slots" and "row = r @ replicate (m - length r) None"
      unfolding g by auto
    with le show "length row = m" by simp
  qed
  with mx g show ?thesis unfolding fm us by simp
qed


theorem generateCellMatrix_rectangular_witness:
  "map length (generateCellMatrix
     [ViewElement ''tr'' [] [ViewElement ''td'' [] []],
      ViewElement ''tr'' [] [ViewElement ''th'' [] [], ViewElement ''td'' [(''colspan'', ''2'')] []]])
     = [3, 3]
   \<and> final_maxColumns
     [ViewElement ''tr'' [] [ViewElement ''td'' [] []],
      ViewElement ''tr'' [] [ViewElement ''th'' [] [], ViewElement ''td'' [(''colspan'', ''2'')] []]]
     = 3
   \<and> map length (unpadded_slots
     [ViewElement ''tr'' [] [ViewElement ''td'' [] []],
      ViewElement ''tr'' [] [ViewElement ''th'' [] [], ViewElement ''td'' [(''colspan'', ''2'')] []]])
     = [1, 3]"
  using generateCellMatrix_rectangular [of
     "[ViewElement ''tr'' [] [ViewElement ''td'' [] []],
      ViewElement ''tr'' [] [ViewElement ''th'' [] [], ViewElement ''td'' [(''colspan'', ''2'')] []]]"]
  by code_simp



section \<open>Properties of \<open>scanTable\<close>\<close>

lemma first_non_th_drop:
  "i \<le> length rowSlots \<Longrightarrow> first_non_th i rowSlots = i + leading_th (drop i rowSlots)"
proof (induction i rowSlots rule: first_non_th.induct)
  case (1 i rowSlots)
  show ?case
  proof (cases "i < length rowSlots")
    case True
    then have d: "drop i rowSlots = rowSlots ! i # drop (Suc i) rowSlots"
      by (simp add: Cons_nth_drop_Suc)
    show ?thesis
    proof (cases "slot_name (rowSlots ! i) = Some ''th''")
      case th: True
      with True "1.IH" show ?thesis
        by (subst first_non_th.simps) (simp add: d leading_th_def)
    next
      case False
      with True show ?thesis
        by (subst first_non_th.simps) (simp add: d leading_th_def)
    qed
  next
    case False
    with "1.prems" show ?thesis
      by (subst first_non_th.simps) (simp add: leading_th_def)
  qed
qed

lemma first_non_th_leading: "first_non_th 0 rowSlots = leading_th rowSlots"
  using first_non_th_drop[of 0 rowSlots] by simp

text \<open>
  What the loop over the body matrix computes: the minimum when every row starts with
  a \<open><th>\<close>, and \<open>0\<close> when the last row does not.
\<close>

lemma scan_matrix_Some_positive:
  "\<forall>r \<in> set m. 0 < leading_th r \<Longrightarrow> 0 < h
   \<Longrightarrow> scan_matrix m (Some h) = Some (fold min (map leading_th m) h)"
proof (induction m arbitrary: h)
  case Nil
  then show ?case by simp
next
  case (Cons r m)
  then have "0 < min (leading_th r) h" by simp
  with Cons show ?case
    by (simp add: first_non_th_leading Let_def min_def)
qed

lemma scan_matrix_min:
  assumes "m \<noteq> []" and "\<forall>r \<in> set m. 0 < leading_th r"
  shows "scan_matrix m None = Some (Min (leading_th ` set m))"
proof -
  from assms obtain r rs where m: "m = r # rs" by (cases m) auto
  with assms have "scan_matrix m None = Some (fold min (map leading_th rs) (leading_th r))"
    by (simp add: first_non_th_leading Let_def scan_matrix_Some_positive)
  also have "fold min (map leading_th rs) (leading_th r) = Min (set (map leading_th (r # rs)))"
    using Min.set_eq_fold[of "leading_th r" "map leading_th rs"] by simp
  finally show ?thesis by (simp add: m)
qed

lemma scan_matrix_zero_last:
  "leading_th r = 0 \<Longrightarrow> scan_matrix (m @ [r]) h = Some 0"
  by (induction m arbitrary: h) (auto simp: first_non_th_leading Let_def split: option.splits)

text \<open>
  Claim C1 asks for the minimum, over the body rows, of the number of leading \<open><th>\<close>
  slots. The code misses it when a row with no leading \<open><th>\<close> is followed by a row
  with some: for a body of the rows \<open>[td]\<close> and \<open>[th, td]\<close> the leading heading slots
  are \<open>0\<close> and \<open>1\<close>, and \<open>scanTable\<close> returns \<open>headingColumns = 1\<close>, since
  \<open>!headingColumns\<close> holds for \<open>0\<close> as it does for \<open>undefined\<close>.
\<close>

theorem scanTable_headingColumns_after_zero_row:
  "headingColumns (scanTable (ViewElement ''table'' []
       [ViewElement ''tbody'' []
          [ViewElement ''tr'' [] [ViewElement ''td'' [] []],
           ViewElement ''tr'' [] [ViewElement ''th'' [] [], ViewElement ''td'' [] []]]])) = 1
   \<and> map leading_th (generateCellMatrix (scanned_bodyRows (ViewElement ''table'' []
       [ViewElement ''tbody'' []
          [ViewElement ''tr'' [] [ViewElement ''td'' [] []],
           ViewElement ''tr'' [] [ViewElement ''th'' [] [], ViewElement ''td'' [] []]]]))) = [0, 1]"
  by code_simp




lemma filter_section_rows:
  "filter (is_heading ft) (map (\<lambda>tr. (i, sec, tr)) trs)
     = map (\<lambda>tr. (i, sec, tr)) (filter (\<lambda>tr. is_heading ft (i, sec, tr)) trs)"
  by (induction trs) auto











section \<open>Properties of the converters\<close>

lemma node_at_append:
  "node_at (p @ q) doc = (case node_at p doc of None \<Rightarrow> None | Some n \<Rightarrow> node_at q n)"
proof (induction p arbitrary: doc)
  case Nil
  then show ?case by simp
next
  case (Cons i p)
  then show ?case by (cases doc) auto
qed

lemma node_at_insert_at_append:
  "node_at p doc = Some n \<Longrightarrow> node_at p (insert_at (p @ q) k ns doc) = Some (insert_at q k ns n)"
proof (induction p arbitrary: doc)
  case Nil
  then show ?case by simp
next
  case (Cons i p)
  then show ?case by (cases doc) (auto split: if_splits)
qed

lemma node_at_insert_at:
  "node_at p doc = Some (ModelElement nm as cs)
   \<Longrightarrow> node_at p (insert_at p k ns doc) = Some (ModelElement nm as (take k cs @ ns @ drop k cs))"
  using node_at_insert_at_append[of p doc "ModelElement nm as cs" "[]" k ns] by simp

lemma node_at_inserted:
  assumes "valid_position doc pos"
  shows "node_at (inserted_at pos) (insert_at (parent pos) (index pos) [el] doc) = Some el"
proof -
  from assms obtain nm as cs where n: "node_at (parent pos) doc = Some (ModelElement nm as cs)"
    and k: "index pos \<le> length cs"
    by (auto simp: valid_position_def split: option.splits ModelNode.splits)
  have "(take (index pos) cs @ el # drop (index pos) cs) ! index pos = el"
    using k by (simp add: nth_append)
  with k node_at_insert_at[OF n, of "index pos" "[el]"] show ?thesis
    by (simp add: inserted_at_def node_at_append)
qed

lemma convertItem_keeps:
  assumes "\<exists>cs. node_at t (document s) = Some (ModelElement nm as cs)"
  shows "\<exists>cs. node_at t (document (snd (convertItem api row (createPositionAt_end t (document s)) s)))
           = Some (ModelElement nm as cs)"
proof -
  from assms obtain cs where n: "node_at t (document s) = Some (ModelElement nm as cs)" by blast
  obtain r c where ir: "item_results api row (createPositionAt_end t (document s)) s = (r, c)"
    by (cases "item_results api row (createPositionAt_end t (document s)) s") auto
  show ?thesis
  proof (cases r)
    case None
    with ir n show ?thesis by (simp add: convertItem_def)
  next
    case (Some ns)
    with ir node_at_insert_at[OF n, of "length cs" ns] n show ?thesis
      by (simp add: convertItem_def createPositionAt_end_def children_at_def)
  qed
qed

lemma convert_rows_keeps:
  "\<exists>cs. node_at t (document s) = Some (ModelElement nm as cs)
   \<Longrightarrow> \<exists>cs. node_at t (document (convert_rows api t rs s)) = Some (ModelElement nm as cs)"
proof (induction rs arbitrary: s)
  case Nil
  then show ?case by simp
next
  case (Cons r rs)
  from Cons.IH[OF convertItem_keeps[OF Cons.prems]] show ?case by simp
qed

lemma convertChildren_keeps:
  assumes "\<exists>cs. node_at t (document s) = Some (ModelElement nm as cs)"
  shows "\<exists>cs. node_at t (document (snd (convertChildren api v (createPositionAt_end t (document s)) s)))
           = Some (ModelElement nm as cs)"
proof -
  from assms obtain cs where n: "node_at t (document s) = Some (ModelElement nm as cs)" by blast
  obtain ns c where ir: "children_results api v (createPositionAt_end t (document s)) s = (ns, c)"
    by (cases "children_results api v (createPositionAt_end t (document s)) s") auto
  with node_at_insert_at[OF n, of "length cs" ns] n show ?thesis
    by (simp add: convertChildren_def createPositionAt_end_def children_at_def)
qed

lemma convert_contents_keeps:
  assumes "\<exists>cs. node_at t (document s) = Some (ModelElement nm as cs)"
  shows "\<exists>cs. node_at t (document (convert_contents api v t s)) = Some (ModelElement nm as cs)"
  unfolding convert_contents_def Let_def
  by (rule convertChildren_keeps[OF convert_rows_keeps[OF assms]])

lemma fill_empty_table_row:
  assumes n: "node_at t (document s) = Some (ModelElement nm as [])"
  shows "node_at t (document (fill_empty_table t s))
     = Some (ModelElement nm as [ModelElement ''tableRow'' [] [ModelElement ''tableCell'' [] []]])"
proof -
  let ?row = "ModelElement ''tableRow'' [] []"
  let ?d1 = "insert_at t 0 [?row] (document s)"
  have e: "element_isEmpty t (document s)"
    using n by (simp add: element_isEmpty_def children_at_def)
  have pos: "createPositionAt_end t (document s) = \<lparr> parent = t, index = 0 \<rparr>"
    using n by (simp add: createPositionAt_end_def children_at_def)
  have d1: "node_at t ?d1 = Some (ModelElement nm as [?row])"
    using node_at_insert_at[OF n, of 0 "[?row]"] by simp
  then have r: "node_at (t @ [0]) ?d1 = Some ?row"
    by (simp add: node_at_append)
  then have pos2: "createPositionAt_end (t @ [0]) ?d1 = \<lparr> parent = t @ [0], index = 0 \<rparr>"
    by (simp add: createPositionAt_end_def children_at_def)
  have "node_at t (insert_at (t @ [0]) 0 [ModelElement ''tableCell'' [] []] ?d1)
      = Some (insert_at [0] 0 [ModelElement ''tableCell'' [] []] (ModelElement nm as [?row]))"
    by (rule node_at_insert_at_append[OF d1])
  then show ?thesis
    using e pos pos2
    by (simp add: fill_empty_table_def Let_def writer_insert_def createEmptyTableCell_def inserted_at_def)
qed

lemma fill_empty_table_nonempty:
  "children_at t (document s) \<noteq> [] \<Longrightarrow> fill_empty_table t s = s"
  by (simp add: fill_empty_table_def element_isEmpty_def)

lemma upcastTable_fills_empty_table:
  assumes valid: "valid_position (document s) (modelCursor data)"
    and avail: "consumable_test (consumable s) (viewItem data) [Name] = Some True"
    and ok: "fst (safeInsert api (new_table (viewItem data)) (modelCursor data) s)"
  shows "children_at (inserted_at (modelCursor data)) (document (snd (upcastTable api data s))) \<noteq> []
    \<and> (children_at (inserted_at (modelCursor data)) (document (table_converted api data s)) = []
        \<longrightarrow> children_at (inserted_at (modelCursor data)) (document (snd (upcastTable api data s)))
            = [ModelElement ''tableRow'' [] [ModelElement ''tableCell'' [] []]])
    \<and> (children_at (inserted_at (modelCursor data)) (document (table_converted api data s)) \<noteq> []
        \<longrightarrow> snd (upcastTable api data s) = table_converted api data s)"
proof -
  let ?t = "inserted_at (modelCursor data)"
  let ?s1 = "snd (safeInsert api (new_table (viewItem data)) (modelCursor data) s)"
  let ?s2 = "snd (consumable_consume (viewItem data) [Name] ?s1)"
  let ?s3 = "table_converted api data s"
  have si: "safeInsert api (new_table (viewItem data)) (modelCursor data) s = (True, ?s1)"
    using ok by (cases "safeInsert api (new_table (viewItem data)) (modelCursor data) s") simp
  have d1: "document ?s1 = insert_at (parent (modelCursor data)) (index (modelCursor data))
      [new_table (viewItem data)] (document s)"
    using ok by (simp add: safeInsert_def split: if_splits)
  have d2: "document ?s2 = document ?s1"
    by (simp add: consumable_consume_def)
  have "node_at ?t (document ?s2) = Some (new_table (viewItem data))"
    unfolding d2 d1 by (rule node_at_inserted[OF valid])
  then have "\<exists>cs. node_at ?t (document ?s2)
      = Some (ModelElement ''table'' (table_attributes (scanTable (viewItem data))) cs)"
    by (simp add: new_table_def)
  from convert_contents_keeps[OF this, of api "viewItem data"]
  obtain cs where n3: "node_at ?t (document ?s3)
      = Some (ModelElement ''table'' (table_attributes (scanTable (viewItem data))) cs)"
    unfolding table_converted_def by blast
  obtain s1 where s1: "safeInsert api (new_table (viewItem data)) (modelCursor data) s = (True, s1)"
    using si by blast
  have up: "snd (upcastTable api data s) = fill_empty_table ?t ?s3"
    using avail by (simp add: upcastTable_def Let_def table_converted_def s1)
  show ?thesis
  proof (cases cs)
    case Nil
    with n3 fill_empty_table_row[of ?t ?s3] show ?thesis
      unfolding up by (simp add: children_at_def)
  next
    case (Cons c cs')
    with n3 have "children_at ?t (document ?s3) \<noteq> []" by (simp add: children_at_def)
    with fill_empty_table_nonempty[OF this] show ?thesis unfolding up by simp
  qed
qed

text \<open>
  Claim C4. If \<open>safeInsert\<close> of the new model table at the model cursor fails, the
  listener on \<open>element:table\<close> returns with the data and the state as they were: the
  document is unchanged, the consumables are unchanged (the name of the view table is
  consumed only after a successful \<open>safeInsert\<close>), and no row or child is converted,
  whatever the converters of the API would do.
\<close>

theorem upcastTable_safeInsert_fails:
  assumes "\<not> fst (safeInsert api (new_table (viewItem data)) (modelCursor data) s)"
  shows "upcastTable api data s = (data, s)
    \<and> document (snd (upcastTable api data s)) = document s
    \<and> consumable (snd (upcastTable api data s)) = consumable s"
proof -
  from assms have "safeInsert api (new_table (viewItem data)) (modelCursor data) s = (False, s)"
    by (simp add: safeInsert_def split: if_splits)
  then show ?thesis by (simp add: upcastTable_def Let_def)
qed

theorem upcastTable_safeInsert_fails_witness:
  "upcastTable (example_api False [])
      (example_data (ViewElement ''table'' []
         [ViewElement ''tbody'' [] [ViewElement ''tr'' [] [ViewElement ''td'' [] []]]]))
      (root_state all_available)
   = (example_data (ViewElement ''table'' []
         [ViewElement ''tbody'' [] [ViewElement ''tr'' [] [ViewElement ''td'' [] []]]]),
      root_state all_available)"
  using upcastTable_safeInsert_fails [of "example_api False []"
      "example_data (ViewElement ''table'' []
         [ViewElement ''tbody'' [] [ViewElement ''tr'' [] [ViewElement ''td'' [] []]]])"
      "root_state all_available"]
  by (simp add: safeInsert_def example_api_def)






text \<open>
  Claim C6, as amended. Where the table was inserted, the model table is not empty when
  the listener on \<open>element:table\<close> returns: if it has no children after its rows and its
  other children were converted, it gets exactly one \<open>tableRow\<close> with exactly one empty
  \<open>tableCell\<close>, and otherwise it is left as the conversion made it, so it has at least one
  child (a row with a cell when nothing was converted into it).
\<close>

theorem upcastTable_nonempty:
  assumes "valid_position (document s) (modelCursor data)"
    and "consumable_test (consumable s) (viewItem data) [Name] = Some True"
    and "fst (safeInsert api (new_table (viewItem data)) (modelCursor data) s)"
  shows "children_at (inserted_at (modelCursor data)) (document (snd (upcastTable api data s))) \<noteq> []
    \<and> (children_at (inserted_at (modelCursor data)) (document (table_converted api data s)) = []
        \<longrightarrow> children_at (inserted_at (modelCursor data)) (document (snd (upcastTable api data s)))
            = [ModelElement ''tableRow'' [] [ModelElement ''tableCell'' [] []]])
    \<and> (children_at (inserted_at (modelCursor data)) (document (table_converted api data s)) \<noteq> []
        \<longrightarrow> snd (upcastTable api data s) = table_converted api data s)"
  using upcastTable_fills_empty_table[OF assms] .

theorem upcastTable_nonempty_witness:
  "children_at [0] (document (snd (upcastTable (example_api True [])
      (example_data (ViewElement ''table'' [] [])) (root_state all_available))))
   = [ModelElement ''tableRow'' [] [ModelElement ''tableCell'' [] []]]"
proof -
  have e: "children_at [0] (document (table_converted (example_api True [])
      (example_data (ViewElement ''table'' [] [])) (root_state all_available))) = []"
    by code_simp
  have i: "inserted_at (modelCursor (example_data (ViewElement ''table'' [] []))) = [0]"
    by (simp add: inserted_at_def example_data_def)
  show ?thesis
    using upcastTable_nonempty [of "root_state all_available"
        "example_data (ViewElement ''table'' [] [])" "example_api True []"] e
    unfolding i
    by (simp add: valid_position_def root_state_def example_data_def all_available_def
        safeInsert_def example_api_def)
qed

text \<open>
  Claim C6 as the specification states it fails: a view table whose only child is a
  caption, converted by an API that turns the caption into a model \<open>caption\<close>, gives a
  model table with the caption as its only child, and so with no row.
\<close>

theorem upcastTable_caption_only:
  "children_at [0] (document (snd (upcastTable (example_api True [ModelElement ''caption'' [] []])
      (example_data (ViewElement ''table'' [] [ViewElement ''caption'' [] []]))
      (root_state all_available))))
   = [ModelElement ''caption'' [] []]
   \<and> \<not> has_row_with_cell
      (children_at [0] (document (snd (upcastTable (example_api True [ModelElement ''caption'' [] []])
        (example_data (ViewElement ''table'' [] [ViewElement ''caption'' [] []]))
        (root_state all_available)))))"
  by code_simp

lemma convert_tr_row:
  assumes n: "node_at t (document s) = Some (ModelElement nm as cs)"
  shows "node_at t (document (snd (convertItem (rows_api rowModel) r
            (createPositionAt_end t (document s)) s)))
     = Some (ModelElement nm as (if isEmpty r \<and> cs = [] then cs else cs @ [rowModel r]))"
proof -
  have pos: "createPositionAt_end t (document s) = \<lparr> parent = t, index = length cs \<rparr>"
    using n by (simp add: createPositionAt_end_def children_at_def)
  show ?thesis
  proof (cases "isEmpty r \<and> cs = []")
    case True
    with n show ?thesis
      unfolding pos
      by (simp add: convertItem_def rows_api_def convert_tr_def skipEmptyTableRow_def)
  next
    case False
    with node_at_insert_at[OF n, of "length cs" "[rowModel r]"] show ?thesis
      unfolding pos
      by (auto simp: convertItem_def rows_api_def convert_tr_def skipEmptyTableRow_def)
  qed
qed

lemma convert_rows_leading_empty:
  "node_at t (document s) = Some (ModelElement nm as cs)
   \<Longrightarrow> node_at t (document (convert_rows (rows_api rowModel) t rs s))
     = Some (ModelElement nm as
         (cs @ map rowModel (if cs = [] then dropWhile isEmpty rs else rs)))"
proof (induction rs arbitrary: s cs)
  case Nil
  then show ?case by simp
next
  case (Cons r rs)
  let ?s' = "snd (convertItem (rows_api rowModel) r (createPositionAt_end t (document s)) s)"
  show ?case
  proof (cases "isEmpty r \<and> cs = []")
    case True
    with convert_tr_row[OF Cons.prems, of rowModel r]
    have "node_at t (document ?s') = Some (ModelElement nm as cs)" by simp
    from Cons.IH[OF this] True show ?thesis by simp
  next
    case False
    with convert_tr_row[OF Cons.prems, of rowModel r]
    have "node_at t (document ?s') = Some (ModelElement nm as (cs @ [rowModel r]))" by simp
    from Cons.IH[OF this] False show ?thesis by auto
  qed
qed

text \<open>
  Claim C7, as amended. The guard \<open>skipEmptyTableRow\<close> stops the event of a \<open><tr>\<close>
  exactly when the view row has no children and the index of the model cursor is \<open>0\<close>;
  an empty row met with the cursor at a later index, and a row that is not empty, leave
  the event as it was. So in the loop of \<open>upcastTable\<close> over the rows, which puts the
  cursor at the end of the model table, the table gets the rows in order without the
  empty rows that come before the first row converted into it: every leading empty
  row is stopped, and an empty row after a converted row is converted.
\<close>

theorem skipEmptyTableRow_leading:
  "(stop_called (skipEmptyTableRow (evt\<lparr> stop_called := False \<rparr>) data)
      \<longleftrightarrow> isEmpty (viewItem data) \<and> index (modelCursor data) = 0)
   \<and> (isEmpty (viewItem data) \<and> 0 < index (modelCursor data)
        \<longrightarrow> skipEmptyTableRow evt data = evt)
   \<and> (\<not> isEmpty (viewItem data) \<longrightarrow> skipEmptyTableRow evt data = evt)
   \<and> (node_at table (document s) = Some (ModelElement nm as cs)
        \<longrightarrow> node_at table (document (convert_rows (rows_api rowModel) table rs s))
            = Some (ModelElement nm as
                (cs @ map rowModel (if cs = [] then dropWhile isEmpty rs else rs))))"
  using convert_rows_leading_empty[of table s nm as cs rowModel rs]
  by (simp add: skipEmptyTableRow_def)

theorem skipEmptyTableRow_leading_witness:
  "children_at [0] (document (convert_rows (rows_api cells_row_model) [0]
      [ViewElement ''tr'' [] [ViewElement ''td'' [] []], ViewElement ''tr'' [] []] table_state))
   = [ModelElement ''tableRow'' [] [ModelElement ''tableCell'' [] []],
      ModelElement ''tableRow'' [] []]
   \<and> stop_called (skipEmptyTableRow \<lparr> stop_called = False \<rparr>
      \<lparr> viewItem = ViewElement ''tr'' [] [], modelCursor = \<lparr> parent = [0], index = 0 \<rparr>,
        modelRange = None \<rparr>)
   \<and> skipEmptyTableRow \<lparr> stop_called = False \<rparr>
      \<lparr> viewItem = ViewElement ''tr'' [] [], modelCursor = \<lparr> parent = [0], index = 1 \<rparr>,
        modelRange = None \<rparr> = \<lparr> stop_called = False \<rparr>"
proof -
  have n: "node_at [0] (document table_state) = Some (ModelElement ''table'' [] [])"
    by (simp add: table_state_def)
  have a: "node_at [0] (document (convert_rows (rows_api cells_row_model) [0]
      [ViewElement ''tr'' [] [ViewElement ''td'' [] []], ViewElement ''tr'' [] []] table_state))
    = Some (ModelElement ''table'' []
        [ModelElement ''tableRow'' [] [ModelElement ''tableCell'' [] []],
         ModelElement ''tableRow'' [] []])"
    using skipEmptyTableRow_leading [where table="[0]" and s=table_state and nm="''table''"
        and as="[]" and cs="[]" and rowModel=cells_row_model
        and rs="[ViewElement ''tr'' [] [ViewElement ''td'' [] []], ViewElement ''tr'' [] []]"] n
    by (simp add: isEmpty_def cells_row_model_def cell_children_def)
  have b: "stop_called (skipEmptyTableRow \<lparr> stop_called = False \<rparr>
      \<lparr> viewItem = ViewElement ''tr'' [] [], modelCursor = \<lparr> parent = [0], index = 0 \<rparr>,
        modelRange = None \<rparr>)"
    using skipEmptyTableRow_leading [where evt="\<lparr> stop_called = False \<rparr>"
      and data="\<lparr> viewItem = ViewElement ''tr'' [] [], modelCursor = \<lparr> parent = [0], index = 0 \<rparr>,
        modelRange = None \<rparr>"]
    by (simp add: isEmpty_def)
  have c: "skipEmptyTableRow \<lparr> stop_called = False \<rparr>
      \<lparr> viewItem = ViewElement ''tr'' [] [], modelCursor = \<lparr> parent = [0], index = 1 \<rparr>,
        modelRange = None \<rparr> = \<lparr> stop_called = False \<rparr>"
    using skipEmptyTableRow_leading [where evt="\<lparr> stop_called = False \<rparr>"
      and data="\<lparr> viewItem = ViewElement ''tr'' [] [], modelCursor = \<lparr> parent = [0], index = 1 \<rparr>,
        modelRange = None \<rparr>"]
    by (simp add: isEmpty_def)
  from a b c show ?thesis by (simp add: children_at_def)
qed

text \<open>
  Claim C7 as the specification states it fails: the second of two leading empty rows
  stands at a later position of the table, yet it meets the cursor at index \<open>0\<close> of the
  still empty model table and is stopped; of the rows \<open>[tr[], tr[], tr[td]]\<close> only the
  third is converted.
\<close>

theorem skipEmptyTableRow_second_leading_row:
  "stop_called (skipEmptyTableRow \<lparr> stop_called = False \<rparr>
      \<lparr> viewItem = ViewElement ''tr'' [] [],
        modelCursor = createPositionAt_end [0]
          (document (snd (convertItem (rows_api cells_row_model) (ViewElement ''tr'' [] [])
             (createPositionAt_end [0] (document table_state)) table_state))),
        modelRange = None \<rparr>)
   \<and> children_at [0] (document (convert_rows (rows_api cells_row_model) [0]
        [ViewElement ''tr'' [] [], ViewElement ''tr'' [] [],
         ViewElement ''tr'' [] [ViewElement ''td'' [] []]] table_state))
     = [ModelElement ''tableRow'' [] [ModelElement ''tableCell'' [] []]]"
  by code_simp

end
